theory Spec2Isabelle
  imports Main "HOL-Library.Sublist"
begin

section \<open>Strings\<close>

text \<open>
  A JavaScript string is a sequence of UTF-16 code units. The component trims its input and
  builds texts with characters outside ASCII (a dash in the greeting, a bullet in the
  summary), so a string is modelled as the list of its code units. \<open>lit\<close> reads an ASCII
  literal.
\<close>

type_synonym jsstring = "nat list"

definition lit :: "string \<Rightarrow> jsstring" where
  "lit s = map of_char s"

text \<open>
  \<^verbatim>\<open>String.prototype.trim\<close> strips the code units of ECMAScript's WhiteSpace and
  LineTerminator productions from both ends.
\<close>

definition whiteSpace :: "nat list" where
  "whiteSpace =
     [0x0009, 0x000A, 0x000B, 0x000C, 0x000D, 0x0020, 0x00A0, 0x1680,
      0x2000, 0x2001, 0x2002, 0x2003, 0x2004, 0x2005, 0x2006, 0x2007, 0x2008, 0x2009, 0x200A,
      0x2028, 0x2029, 0x202F, 0x205F, 0x3000, 0xFEFF]"

definition isWhiteSpace :: "nat \<Rightarrow> bool" where
  "isWhiteSpace c = (c \<in> set whiteSpace)"

definition trim :: "jsstring \<Rightarrow> jsstring" where
  "trim s = rev (dropWhile isWhiteSpace (rev (dropWhile isWhiteSpace s)))"

text \<open>\<^verbatim>\<open>Array.prototype.join\<close> with a separator.\<close>

fun join :: "jsstring \<Rightarrow> jsstring list \<Rightarrow> jsstring" where
  "join sep [] = []"
| "join sep [x] = x"
| "join sep (x # y # ys) = x @ sep @ join sep (y # ys)"

text \<open>Truthiness of an optional string and of an optional number, as \<^verbatim>\<open>x ? a : b\<close> tests it.\<close>

fun truthy :: "jsstring option \<Rightarrow> bool" where
  "truthy None = False"
| "truthy (Some s) = (s \<noteq> [])"

fun truthyNum :: "int option \<Rightarrow> bool" where
  "truthyNum None = False"
| "truthyNum (Some n) = (n \<noteq> 0)"

text \<open>The nullish default \<^verbatim>\<open>x ?? d\<close>.\<close>

fun nullish :: "jsstring option \<Rightarrow> jsstring \<Rightarrow> jsstring" where
  "nullish None d = d"
| "nullish (Some s) d = s"

text \<open>An array read \<^verbatim>\<open>xs[i]\<close>: \<^verbatim>\<open>undefined\<close> out of range.\<close>

definition at :: "'a list \<Rightarrow> nat \<Rightarrow> 'a option" where
  "at xs i = (if i < length xs then Some (xs ! i) else None)"

section \<open>Data model\<close>

text \<open>
  Modelled from the spec: the type \<^verbatim>\<open>LeadProfile\<close> is declared in \<^verbatim>\<open>@/lib/leadAgent\<close>,
  whose source is not part of this development. Its fields are the thirteen optional fields the spec
  lists, under the names the component reads them by; an absent field and a field holding
  \<^verbatim>\<open>undefined\<close> read the same, so each is an option. The two numeric fields hold
  integers (a budget magnitude and a number of weeks); fractional values and NaN are
  outside the model.
\<close>

record LeadProfile =
  companyName :: "jsstring option"
  industry :: "jsstring option"
  companySize :: "jsstring option"
  primaryGoal :: "jsstring option"
  painPoints :: "jsstring option"
  budgetRange :: "jsstring option"
  budgetValue :: "int option"
  timeline :: "jsstring option"
  timelineWeeks :: "int option"
  techStack :: "jsstring option"
  contactName :: "jsstring option"
  contactEmail :: "jsstring option"
  leadNotes :: "jsstring option"

definition emptyLead :: LeadProfile where
  "emptyLead = \<lparr>companyName = None, industry = None, companySize = None, primaryGoal = None,
     painPoints = None, budgetRange = None, budgetValue = None, timeline = None,
     timelineWeeks = None, techStack = None, contactName = None, contactEmail = None,
     leadNotes = None\<rparr>"

text \<open>
  \<^verbatim>\<open>Partial<LeadProfile>\<close>: every key may be missing (\<open>None\<close>), or present with a value
  that may itself be \<^verbatim>\<open>undefined\<close> (\<open>Some None\<close>).
\<close>

record LeadUpdates =
  setCompanyName :: "jsstring option option"
  setIndustry :: "jsstring option option"
  setCompanySize :: "jsstring option option"
  setPrimaryGoal :: "jsstring option option"
  setPainPoints :: "jsstring option option"
  setBudgetRange :: "jsstring option option"
  setBudgetValue :: "int option option"
  setTimeline :: "jsstring option option"
  setTimelineWeeks :: "int option option"
  setTechStack :: "jsstring option option"
  setContactName :: "jsstring option option"
  setContactEmail :: "jsstring option option"
  setNotes :: "jsstring option option"

definition noUpdates :: LeadUpdates where
  "noUpdates = \<lparr>setCompanyName = None, setIndustry = None, setCompanySize = None,
     setPrimaryGoal = None, setPainPoints = None, setBudgetRange = None, setBudgetValue = None,
     setTimeline = None, setTimelineWeeks = None, setTechStack = None, setContactName = None,
     setContactEmail = None, setNotes = None\<rparr>"

text \<open>
  The object spread \<^verbatim>\<open>{ ...lead, ...updates }\<close>: a key of \<^verbatim>\<open>updates\<close> replaces the
  field, whatever it holds; a key it does not have keeps the field of \<^verbatim>\<open>lead\<close>.
\<close>

fun spread :: "'a option \<Rightarrow> 'a option option \<Rightarrow> 'a option" where
  "spread old None = old"
| "spread old (Some v) = v"

definition mergeLead :: "LeadProfile \<Rightarrow> LeadUpdates \<Rightarrow> LeadProfile" where
  "mergeLead l u =
     \<lparr>companyName = spread (companyName l) (setCompanyName u),
      industry = spread (industry l) (setIndustry u),
      companySize = spread (companySize l) (setCompanySize u),
      primaryGoal = spread (primaryGoal l) (setPrimaryGoal u),
      painPoints = spread (painPoints l) (setPainPoints u),
      budgetRange = spread (budgetRange l) (setBudgetRange u),
      budgetValue = spread (budgetValue l) (setBudgetValue u),
      timeline = spread (timeline l) (setTimeline u),
      timelineWeeks = spread (timelineWeeks l) (setTimelineWeeks u),
      techStack = spread (techStack l) (setTechStack u),
      contactName = spread (contactName l) (setContactName u),
      contactEmail = spread (contactEmail l) (setContactEmail u),
      leadNotes = spread (leadNotes l) (setNotes u)\<rparr>"

text \<open>
  Modelled from the spec: the type \<^verbatim>\<open>LeadStep\<close> and the result of a parse contract are
  declared in \<^verbatim>\<open>@/lib/leadAgent\<close>, whose source is not part of this development. A step carries the
  fields the component reads (\<^verbatim>\<open>question\<close>, \<^verbatim>\<open>helper\<close>, \<^verbatim>\<open>suggestions\<close>,
  \<^verbatim>\<open>parse\<close>); a result is a failure with its \<^verbatim>\<open>retryMessage\<close> or a success with its
  \<^verbatim>\<open>updates\<close> and optional \<^verbatim>\<open>followUp\<close>. The list of steps \<^verbatim>\<open>baseSteps\<close> is defined
  there too and is a parameter \<open>baseSteps\<close> of every function below that reads it.
\<close>

datatype ParseResult =
  Failure (retryMessage: jsstring)
| Success (updates: LeadUpdates) (followUp: "jsstring option")

record LeadStep =
  question :: jsstring
  helper :: "jsstring option"
  suggestions :: "jsstring list option"
  parse :: "jsstring \<Rightarrow> LeadProfile \<Rightarrow> ParseResult"

datatype Sender = Agent | User

datatype MetaType = Question | Info | Summary

text \<open>
  A message. \<open>meta\<close> is \<open>None\<close> when the message has no \<^verbatim>\<open>meta\<close> object and
  \<open>Some t\<close> for \<^verbatim>\<open>{ type: t }\<close>.
\<close>

record Message =
  msgId :: jsstring
  sender :: Sender
  content :: jsstring
  msgSuggestions :: "jsstring list option"
  meta :: "MetaType option option"

datatype Status = Collecting | Complete

record AgentState =
  stepIndex :: nat
  lead :: LeadProfile
  messages :: "Message list"
  status :: Status

datatype AgentAction =
  INIT
| PUSH_MESSAGE Message
| BULK_MESSAGES "Message list"
| ADVANCE LeadUpdates "jsstring option"
| RETRY jsstring
| COMPLETE "jsstring option"
| RESET

text \<open>
  Reading a property of \<^verbatim>\<open>undefined\<close> throws a TypeError: \<^verbatim>\<open>questionForStep\<close> does so
  when it is handed a step that \<^verbatim>\<open>baseSteps\<close> does not have.
\<close>

datatype error = TypeError

section \<open>Identifiers\<close>

text \<open>
  \<^verbatim>\<open>generateId\<close> draws a fresh random identifier. The supply of identifiers is an
  arbitrary stream, threaded through every function that creates a message; the
  theorems hold for every stream.
\<close>

type_synonym ids = "nat \<Rightarrow> jsstring"

definition generateId :: "ids \<Rightarrow> jsstring \<times> ids" where
  "generateId g = (g 0, \<lambda>n. g (Suc n))"

section \<open>Messages\<close>

definition initialAgentMessage :: Message where
  "initialAgentMessage =
     \<lparr>msgId = lit ''intro'',
      sender = Agent,
      content = lit ''Hey there '' @ [0x2014] @
        lit '' I'm your lead concierge. I'll capture the essentials in a few quick questions.'',
      msgSuggestions = Some [lit ''Sounds good!'', lit ''Let's do it'', lit ''Can we skip ahead?''],
      meta = Some (Some Info)\<rparr>"

definition agentMessage ::
  "jsstring \<Rightarrow> jsstring list option \<Rightarrow> MetaType option option \<Rightarrow> ids \<Rightarrow> Message \<times> ids" where
  "agentMessage c sugg m g =
     (let (i, g') = generateId g
      in (\<lparr>msgId = i, sender = Agent, content = c, msgSuggestions = sugg, meta = m\<rparr>, g'))"

definition userMessage :: "jsstring \<Rightarrow> ids \<Rightarrow> Message \<times> ids" where
  "userMessage c g =
     (let (i, g') = generateId g
      in (\<lparr>msgId = i, sender = User, content = c, msgSuggestions = None, meta = None\<rparr>, g'))"

definition questionForStep :: "LeadStep \<Rightarrow> nat option \<Rightarrow> ids \<Rightarrow> Message \<times> ids" where
  "questionForStep step index g =
     (let c = (if index = None \<or> index = Some 0 then question step
               else question step @
                 (case helper step of
                    None \<Rightarrow> []
                  | Some h \<Rightarrow> if h \<noteq> [] then [0x000A] @ h else []));
          (i, g') = generateId g
      in (\<lparr>msgId = i, sender = Agent, content = c, msgSuggestions = suggestions step,
           meta = Some (Some Question)\<rparr>, g'))"

section \<open>The reducer\<close>

text \<open>
  \<^verbatim>\<open>action.followUp ? [agentMessage(action.followUp)] : []\<close>, as the cases ADVANCE and
  COMPLETE compute it: an absent or empty follow-up gives no message.
\<close>

definition followUpMessages :: "jsstring option \<Rightarrow> ids \<Rightarrow> Message list \<times> ids" where
  "followUpMessages f g =
     (case f of
        None \<Rightarrow> ([], g)
      | Some t \<Rightarrow>
          if t \<noteq> [] then (let (m, g') = agentMessage t None None g in ([m], g'))
          else ([], g))"

text \<open>
  The initial state, built by the initializer of \<^verbatim>\<open>useReducer\<close>.
  \<^verbatim>\<open>questionForStep(baseSteps[0])\<close> throws when there is no step.
\<close>

definition init :: "LeadStep list \<Rightarrow> ids \<Rightarrow> error + (AgentState \<times> ids)" where
  "init baseSteps g =
     (case at baseSteps 0 of
        None \<Rightarrow> Inl TypeError
      | Some step \<Rightarrow>
          (let (q, g') = questionForStep step None g
           in Inr (\<lparr>stepIndex = 0, lead = emptyLead, messages = [initialAgentMessage, q],
                    status = Collecting\<rparr>, g')))"

fun reducer :: "LeadStep list \<Rightarrow> AgentState \<Rightarrow> AgentAction \<Rightarrow> ids \<Rightarrow> error + (AgentState \<times> ids)" where
  "reducer baseSteps state INIT g =
     (case at baseSteps 0 of
        None \<Rightarrow> Inl TypeError
      | Some step \<Rightarrow>
          (let (q, g') = questionForStep step None g
           in Inr (\<lparr>stepIndex = 0, lead = emptyLead, messages = [initialAgentMessage, q],
                    status = Collecting\<rparr>, g')))"
| "reducer baseSteps state (PUSH_MESSAGE payload) g =
     Inr (state\<lparr>messages := messages state @ [payload]\<rparr>, g)"
| "reducer baseSteps state (BULK_MESSAGES payload) g =
     Inr (state\<lparr>messages := messages state @ payload\<rparr>, g)"
| "reducer baseSteps state (ADVANCE leadUpdates fu) g =
     (let nextLead = mergeLead (lead state) leadUpdates;
          nextStepIndex = stepIndex state + 1;
          (fums, g1) = followUpMessages fu g
      in case at baseSteps nextStepIndex of
           None \<Rightarrow>
             Inr (state\<lparr>lead := nextLead, messages := messages state @ fums,
                        stepIndex := nextStepIndex\<rparr>, g1)
         | Some nextStep \<Rightarrow>
             (let (q, g2) = questionForStep nextStep (Some nextStepIndex) g1
              in Inr (state\<lparr>lead := nextLead, messages := messages state @ fums @ [q],
                            stepIndex := nextStepIndex\<rparr>, g2)))"
| "reducer baseSteps state (RETRY message) g =
     (let (info, g1) = agentMessage message None (Some (Some Info)) g
      in case at baseSteps (stepIndex state) of
           None \<Rightarrow> Inl TypeError
         | Some step \<Rightarrow>
             (let (q, g2) = questionForStep step (Some (stepIndex state)) g1
              in Inr (state\<lparr>messages := messages state @ [info, q]\<rparr>, g2)))"
| "reducer baseSteps state (COMPLETE fu) g =
     (let (fums, g1) = followUpMessages fu g
      in Inr (state\<lparr>status := Complete, messages := messages state @ fums\<rparr>, g1))"
| "reducer baseSteps state RESET g =
     (case at baseSteps 0 of
        None \<Rightarrow> Inl TypeError
      | Some step \<Rightarrow>
          (let (q, g') = questionForStep step None g
           in Inr (\<lparr>stepIndex = 0, lead = emptyLead, messages = [initialAgentMessage, q],
                    status = Collecting\<rparr>, g')))"

section \<open>The summary\<close>

text \<open>\<^verbatim>\<open>x ? f(x) : undefined\<close> on an optional string.\<close>

definition whenTruthy :: "jsstring option \<Rightarrow> (jsstring \<Rightarrow> jsstring) \<Rightarrow> jsstring option" where
  "whenTruthy x f =
     (case x of None \<Rightarrow> None | Some s \<Rightarrow> if s \<noteq> [] then Some (f s) else None)"

text \<open>\<^verbatim>\<open>lines.filter(Boolean)\<close>: drops \<^verbatim>\<open>undefined\<close> and the empty string.\<close>

fun filterBoolean :: "jsstring option list \<Rightarrow> jsstring list" where
  "filterBoolean [] = []"
| "filterBoolean (None # xs) = filterBoolean xs"
| "filterBoolean (Some s # xs) = (if s \<noteq> [] then s # filterBoolean xs else filterBoolean xs)"

definition bullet :: jsstring where
  "bullet = [0x2022] @ lit '' ''"

text \<open>
  \<^verbatim>\<open>Number.prototype.toLocaleString\<close> depends on the host's locale: it is the parameter
  \<open>toLocaleString\<close>.
\<close>

definition renderSummary :: "(int \<Rightarrow> jsstring) \<Rightarrow> LeadProfile \<Rightarrow> jsstring" where
  "renderSummary toLocaleString l =
     (let lines =
        [whenTruthy (companyName l)
           (\<lambda>n. bullet @ n @ lit '' in '' @ nullish (industry l) (lit ''unknown vertical'')),
         whenTruthy (primaryGoal l) (\<lambda>x. bullet @ lit ''Goal: '' @ x),
         whenTruthy (painPoints l) (\<lambda>x. bullet @ lit ''Challenge: '' @ x),
         (if truthy (budgetRange l)
          then whenTruthy (budgetRange l) (\<lambda>x. bullet @ lit ''Budget comfort zone: '' @ x)
          else (case budgetValue l of
                  None \<Rightarrow> None
                | Some v \<Rightarrow>
                    if v \<noteq> 0
                    then Some (bullet @ lit ''Budget comfort zone: ~$'' @ toLocaleString v)
                    else None)),
         whenTruthy (timeline l) (\<lambda>x. bullet @ lit ''Timeline: '' @ x),
         whenTruthy (contactName l)
           (\<lambda>n. bullet @ lit ''Contact: '' @ n @ lit '' ('' @
                 nullish (contactEmail l) (lit ''email pending'') @ lit '')'')]
      in lit ''Quick recap:'' @ [0x000A] @ join [0x000A] (filterBoolean lines))"

section \<open>Submitting an answer\<close>

text \<open>
  \<^verbatim>\<open>handleSubmit\<close> reads the state of the current render and dispatches its actions
  one after the other. A dispatch only queues the action: React runs \<open>reducer\<close> over the
  queue, in order, after the handler has returned. So the messages that the handler
  creates itself (the user's message, the acknowledgement, the summary and the closing
  prompt) draw their identifiers before the messages that the reducer creates.
  \<open>dispatched\<close> is the queue that one call of the handler leaves, \<open>reduceAll\<close> runs the
  reducer over a queue, and \<open>handleSubmit\<close> is the one after the other. \<open>message\<close> is the
  text submitted: the argument of \<^verbatim>\<open>handleSubmit\<close>, or the content of the text box when
  it is called with none. The three fixed texts of the handler are named.
\<close>

definition acknowledgement :: jsstring where
  "acknowledgement = lit ''Appreciate the extra context. Noted for the handoff.''"

definition closingFollowUp :: jsstring where
  "closingFollowUp = lit ''That's everything I need. Here's a quick snapshot of the opportunity.''"

definition closingPrompt :: jsstring where
  "closingPrompt = lit ''Need anything else captured? Just type it in.''"

definition dispatched ::
  "LeadStep list \<Rightarrow> (int \<Rightarrow> jsstring) \<Rightarrow> AgentState \<Rightarrow> jsstring \<Rightarrow> ids \<Rightarrow> AgentAction list \<times> ids" where
  "dispatched baseSteps toLocaleString state message g =
     (let trimmed = trim message in
      if trimmed = [] then ([], g)
      else
        let (um, g1) = userMessage trimmed g in
        if status state = Complete then
          (let (ack, g2) = agentMessage acknowledgement None (Some (Some Info)) g1
           in ([PUSH_MESSAGE um, BULK_MESSAGES [ack]], g2))
        else
          (case at baseSteps (stepIndex state) of
             None \<Rightarrow> ([PUSH_MESSAGE um], g1)
           | Some currentStep \<Rightarrow>
               (case parse currentStep trimmed (lead state) of
                  Failure retry \<Rightarrow> ([PUSH_MESSAGE um, RETRY retry], g1)
                | Success upd fu \<Rightarrow>
                    (let nextLead = mergeLead (lead state) upd;
                         willComplete = (stepIndex state + 1 \<ge> length baseSteps)
                     in if willComplete then
                          (let (sm, g2) =
                                 agentMessage (renderSummary toLocaleString nextLead)
                                   None (Some (Some Summary)) g1;
                               (pm, g3) = agentMessage closingPrompt None None g2
                           in ([PUSH_MESSAGE um, ADVANCE upd fu,
                                COMPLETE (Some closingFollowUp), BULK_MESSAGES [sm, pm]], g3))
                        else ([PUSH_MESSAGE um, ADVANCE upd fu], g1)))))"

fun reduceAll ::
  "LeadStep list \<Rightarrow> AgentState \<Rightarrow> AgentAction list \<Rightarrow> ids \<Rightarrow> error + (AgentState \<times> ids)" where
  "reduceAll baseSteps state [] g = Inr (state, g)"
| "reduceAll baseSteps state (a # as) g =
     (case reducer baseSteps state a g of
        Inl e \<Rightarrow> Inl e
      | Inr (s', g') \<Rightarrow> reduceAll baseSteps s' as g')"

definition handleSubmit ::
  "LeadStep list \<Rightarrow> (int \<Rightarrow> jsstring) \<Rightarrow> AgentState \<Rightarrow> jsstring \<Rightarrow> ids \<Rightarrow> error + (AgentState \<times> ids)" where
  "handleSubmit baseSteps toLocaleString state message g =
     (let (queue, g') = dispatched baseSteps toLocaleString state message g
      in reduceAll baseSteps state queue g')"

text \<open>\<^verbatim>\<open>resetConversation\<close> dispatches RESET.\<close>

definition resetConversation :: "LeadStep list \<Rightarrow> AgentState \<Rightarrow> ids \<Rightarrow> error + (AgentState \<times> ids)" where
  "resetConversation baseSteps state g = reducer baseSteps state RESET g"

section \<open>Conversations\<close>

text \<open>
  A conversation is a sequence of submissions, each applied to the state the previous one
  left. \<open>submitAll\<close> returns the state after each submission, in order.
\<close>

fun submitAll ::
  "LeadStep list \<Rightarrow> (int \<Rightarrow> jsstring) \<Rightarrow> AgentState \<Rightarrow> jsstring list \<Rightarrow> ids \<Rightarrow>
     error + (AgentState list \<times> ids)" where
  "submitAll baseSteps toLocaleString state [] g = Inr ([], g)"
| "submitAll baseSteps toLocaleString state (v # vs) g =
     (case handleSubmit baseSteps toLocaleString state v g of
        Inl e \<Rightarrow> Inl e
      | Inr (s', g') \<Rightarrow>
          (case submitAll baseSteps toLocaleString s' vs g' of
             Inl e \<Rightarrow> Inl e
           | Inr (tr, g'') \<Rightarrow> Inr (s' # tr, g'')))"

text \<open>The states of a conversation that starts from the initial state, the initial one first.\<close>

definition conversation ::
  "LeadStep list \<Rightarrow> (int \<Rightarrow> jsstring) \<Rightarrow> jsstring list \<Rightarrow> ids \<Rightarrow> error + (AgentState list \<times> ids)" where
  "conversation baseSteps toLocaleString vs g =
     (case init baseSteps g of
        Inl e \<Rightarrow> Inl e
      | Inr (s0, g0) \<Rightarrow>
          (case submitAll baseSteps toLocaleString s0 vs g0 of
             Inl e \<Rightarrow> Inl e
           | Inr (tr, g') \<Rightarrow> Inr (s0 # tr, g')))"

text \<open>
  A sequence of answers in which each is accepted by its step: the \<open>k\<close>-th answer is not
  blank and the parse contract of step \<open>k\<close> succeeds on it, given the record that the
  answers before it have built.
\<close>

fun allAccepted :: "LeadStep list \<Rightarrow> nat \<Rightarrow> LeadProfile \<Rightarrow> jsstring list \<Rightarrow> bool" where
  "allAccepted baseSteps k l [] = True"
| "allAccepted baseSteps k l (v # vs) =
     (trim v \<noteq> [] \<and>
      (case at baseSteps k of
         None \<Rightarrow> False
       | Some step \<Rightarrow>
           (case parse step (trim v) l of
              Failure r \<Rightarrow> False
            | Success upd fu \<Rightarrow> allAccepted baseSteps (Suc k) (mergeLead l upd) vs)))"

text \<open>An answer that a step rejects, given the record: not blank, and the parse fails.\<close>

definition rejected :: "LeadStep \<Rightarrow> LeadProfile \<Rightarrow> jsstring \<Rightarrow> bool" where
  "rejected step l v =
     (trim v \<noteq> [] \<and> (case parse step (trim v) l of Failure r \<Rightarrow> True | Success upd fu \<Rightarrow> False))"

text \<open>The shapes of the messages that the handler logs.\<close>

abbreviation userMsg :: "jsstring \<Rightarrow> jsstring \<Rightarrow> Message" where
  "userMsg i c \<equiv> \<lparr>msgId = i, sender = User, content = c, msgSuggestions = None, meta = None\<rparr>"

abbreviation agentMsg :: "jsstring \<Rightarrow> jsstring \<Rightarrow> MetaType option option \<Rightarrow> Message" where
  "agentMsg i c m \<equiv> \<lparr>msgId = i, sender = Agent, content = c, msgSuggestions = None, meta = m\<rparr>"

text \<open>
  The last submission of a conversation closes it: from the log of \<open>prev\<close> to the log of
  \<open>fin\<close> it appends the user's message, at most one follow-up of the parse, the closing
  follow-up, the summary of the record of \<open>fin\<close>, and the closing prompt.
\<close>

definition closes :: "(int \<Rightarrow> jsstring) \<Rightarrow> AgentState \<Rightarrow> jsstring \<Rightarrow> AgentState \<Rightarrow> bool" where
  "closes fmt prev v fin =
     (\<exists>i0 fums i1 i2 i3.
        messages fin = messages prev @ [userMsg i0 (trim v)] @ fums @
          [agentMsg i1 closingFollowUp None,
           agentMsg i2 (renderSummary fmt (lead fin)) (Some (Some Summary)),
           agentMsg i3 closingPrompt None] \<and>
        length fums \<le> 1)"

text \<open>The text of an optional string, empty when there is none.\<close>

fun textOf :: "jsstring option \<Rightarrow> jsstring" where
  "textOf None = []"
| "textOf (Some s) = s"

text \<open>A line that is there or not.\<close>

definition lineIf :: "bool \<Rightarrow> jsstring \<Rightarrow> jsstring list" where
  "lineIf b x = (if b then [x] else [])"

text \<open>
  The lines of the summary, as the amended claim C7 words them: one line for each of company
  name, goal, pain points, budget, timeline and contact name that is present and not
  empty, in this order; the budget line shows the range label, or else a numeric value
  that is not zero. An absent industry and an absent email are shown by a placeholder
  inside the line of the company and of the contact.
\<close>

definition summaryLines :: "(int \<Rightarrow> jsstring) \<Rightarrow> LeadProfile \<Rightarrow> jsstring list" where
  "summaryLines fmt l =
     lineIf (truthy (companyName l))
       (bullet @ textOf (companyName l) @ lit '' in '' @
        (if industry l = None then lit ''unknown vertical'' else textOf (industry l))) @
     lineIf (truthy (primaryGoal l)) (bullet @ lit ''Goal: '' @ textOf (primaryGoal l)) @
     lineIf (truthy (painPoints l)) (bullet @ lit ''Challenge: '' @ textOf (painPoints l)) @
     lineIf (truthy (budgetRange l) \<or> truthyNum (budgetValue l))
       (bullet @ lit ''Budget comfort zone: '' @
        (if truthy (budgetRange l) then textOf (budgetRange l)
         else lit ''~$'' @ fmt (case budgetValue l of None \<Rightarrow> 0 | Some n \<Rightarrow> n))) @
     lineIf (truthy (timeline l)) (bullet @ lit ''Timeline: '' @ textOf (timeline l)) @
     lineIf (truthy (contactName l))
       (bullet @ lit ''Contact: '' @ textOf (contactName l) @ lit '' ('' @
        (if contactEmail l = None then lit ''email pending'' else textOf (contactEmail l)) @
        lit '')'')"

text \<open>
  The record \<open>l'\<close> is \<open>l\<close> merged with the updates \<open>u\<close>: a field that \<open>u\<close> names holds
  what \<open>u\<close> gives it, and every other field holds what it holds in \<open>l\<close>.
\<close>

definition mergedRecord :: "LeadProfile \<Rightarrow> LeadUpdates \<Rightarrow> LeadProfile \<Rightarrow> bool" where
  "mergedRecord l u l' =
     (companyName l' = (case setCompanyName u of None \<Rightarrow> companyName l | Some x \<Rightarrow> x) \<and>
      industry l' = (case setIndustry u of None \<Rightarrow> industry l | Some x \<Rightarrow> x) \<and>
      companySize l' = (case setCompanySize u of None \<Rightarrow> companySize l | Some x \<Rightarrow> x) \<and>
      primaryGoal l' = (case setPrimaryGoal u of None \<Rightarrow> primaryGoal l | Some x \<Rightarrow> x) \<and>
      painPoints l' = (case setPainPoints u of None \<Rightarrow> painPoints l | Some x \<Rightarrow> x) \<and>
      budgetRange l' = (case setBudgetRange u of None \<Rightarrow> budgetRange l | Some x \<Rightarrow> x) \<and>
      budgetValue l' = (case setBudgetValue u of None \<Rightarrow> budgetValue l | Some x \<Rightarrow> x) \<and>
      timeline l' = (case setTimeline u of None \<Rightarrow> timeline l | Some x \<Rightarrow> x) \<and>
      timelineWeeks l' = (case setTimelineWeeks u of None \<Rightarrow> timelineWeeks l | Some x \<Rightarrow> x) \<and>
      techStack l' = (case setTechStack u of None \<Rightarrow> techStack l | Some x \<Rightarrow> x) \<and>
      contactName l' = (case setContactName u of None \<Rightarrow> contactName l | Some x \<Rightarrow> x) \<and>
      contactEmail l' = (case setContactEmail u of None \<Rightarrow> contactEmail l | Some x \<Rightarrow> x) \<and>
      leadNotes l' = (case setNotes u of None \<Rightarrow> leadNotes l | Some x \<Rightarrow> x))"

text \<open>A field that the updates do not mention keeps its value.\<close>

definition unchangedWhereAbsent :: "LeadProfile \<Rightarrow> LeadUpdates \<Rightarrow> LeadProfile \<Rightarrow> bool" where
  "unchangedWhereAbsent l u l' =
     ((setCompanyName u = None \<longrightarrow> companyName l' = companyName l) \<and>
      (setIndustry u = None \<longrightarrow> industry l' = industry l) \<and>
      (setCompanySize u = None \<longrightarrow> companySize l' = companySize l) \<and>
      (setPrimaryGoal u = None \<longrightarrow> primaryGoal l' = primaryGoal l) \<and>
      (setPainPoints u = None \<longrightarrow> painPoints l' = painPoints l) \<and>
      (setBudgetRange u = None \<longrightarrow> budgetRange l' = budgetRange l) \<and>
      (setBudgetValue u = None \<longrightarrow> budgetValue l' = budgetValue l) \<and>
      (setTimeline u = None \<longrightarrow> timeline l' = timeline l) \<and>
      (setTimelineWeeks u = None \<longrightarrow> timelineWeeks l' = timelineWeeks l) \<and>
      (setTechStack u = None \<longrightarrow> techStack l' = techStack l) \<and>
      (setContactName u = None \<longrightarrow> contactName l' = contactName l) \<and>
      (setContactEmail u = None \<longrightarrow> contactEmail l' = contactEmail l) \<and>
      (setNotes u = None \<longrightarrow> leadNotes l' = leadNotes l))"

text \<open>The states that the engine reaches from its initial state by submissions and resets.\<close>

inductive reachable :: "LeadStep list \<Rightarrow> (int \<Rightarrow> jsstring) \<Rightarrow> AgentState \<Rightarrow> bool"
  for bs :: "LeadStep list" and fmt :: "int \<Rightarrow> jsstring" where
  start: "init bs g = Inr (s, g') \<Longrightarrow> reachable bs fmt s"
| submit: "reachable bs fmt s \<Longrightarrow> handleSubmit bs fmt s v g = Inr (s', g') \<Longrightarrow> reachable bs fmt s'"
| reset: "reachable bs fmt s \<Longrightarrow> resetConversation bs s g = Inr (s', g') \<Longrightarrow> reachable bs fmt s'"

section \<open>A sample configuration\<close>

text \<open>
  Two steps, a supply of identifiers and a number format, used to instantiate the theorems
  at concrete inputs. The first step wants at least two characters and stores the company
  name; the second rejects a lone question mark and stores the goal. \<open>sampleStart\<close> is
  the initial state of this configuration (lemma \<open>init_sample\<close>).
\<close>

definition sampleSteps :: "LeadStep list" where
  "sampleSteps =
     [\<lparr>question = lit ''Which company?'', helper = None, suggestions = Some [lit ''Acme''],
       parse = (\<lambda>t l. if length t < 2 then Failure (lit ''Please name the company.'')
                       else Success (noUpdates\<lparr>setCompanyName := Some (Some t)\<rparr>)
                              (Some (lit ''Thanks!'')))\<rparr>,
      \<lparr>question = lit ''What is the goal?'', helper = Some (lit ''One sentence is enough.''),
       suggestions = None,
       parse = (\<lambda>t l. if t = lit ''?'' then Failure (lit ''Please describe the goal.'')
                       else Success (noUpdates\<lparr>setPrimaryGoal := Some (Some t)\<rparr>) None)\<rparr>]"

definition sampleIds :: ids where
  "sampleIds n = [n]"

definition sampleFormat :: "int \<Rightarrow> jsstring" where
  "sampleFormat n = lit ''1,000''"

definition sampleStart :: AgentState where
  "sampleStart =
     \<lparr>stepIndex = 0, lead = emptyLead,
      messages = [initialAgentMessage,
        \<lparr>msgId = [0], sender = Agent, content = lit ''Which company?'',
          msgSuggestions = Some [lit ''Acme''], meta = Some (Some Question)\<rparr>],
      status = Collecting\<rparr>"

text \<open>
  The sample conversation: \<open>sampleAnswered\<close> is the state after the answer
  \<^verbatim>\<open>Acme\<close> to the first step, \<open>sampleDone\<close> the state after the answer \<^verbatim>\<open>grow\<close> to
  the second, each submitted with the supply \<open>sampleIds\<close> (lemmas \<open>submit_sampleStart\<close>
  and \<open>submit_sampleAnswered\<close>).
\<close>

definition sampleAnswered :: AgentState where
  "sampleAnswered =
     \<lparr>stepIndex = 1, lead = emptyLead\<lparr>companyName := Some (lit ''Acme'')\<rparr>,
      messages = messages sampleStart @
        [userMsg [0] (lit ''Acme''), agentMsg [1] (lit ''Thanks!'') None,
         \<lparr>msgId = [2], sender = Agent,
           content = lit ''What is the goal?'' @ [0x000A] @ lit ''One sentence is enough.'',
           msgSuggestions = None, meta = Some (Some Question)\<rparr>],
      status = Collecting\<rparr>"

definition sampleDone :: AgentState where
  "sampleDone =
     \<lparr>stepIndex = 2,
      lead = emptyLead\<lparr>companyName := Some (lit ''Acme''), primaryGoal := Some (lit ''grow'')\<rparr>,
      messages = messages sampleAnswered @
        [userMsg [0] (lit ''grow''), agentMsg [3] closingFollowUp None,
         agentMsg [1]
           (renderSummary sampleFormat
              (emptyLead\<lparr>companyName := Some (lit ''Acme''), primaryGoal := Some (lit ''grow'')\<rparr>))
           (Some (Some Summary)),
         agentMsg [2] closingPrompt None],
      status = Complete\<rparr>"

section \<open>One submission, case by case\<close>

lemma closingFollowUp_ne: "closingFollowUp \<noteq> []"
  by (simp add: closingFollowUp_def lit_def)

lemma handleSubmit_blank:
  "trim v = [] \<Longrightarrow> handleSubmit bs fmt s v g = Inr (s, g)"
  by (simp add: handleSubmit_def dispatched_def)

lemma handleSubmit_complete:
  assumes "trim v \<noteq> []" "status s = Complete"
  shows "handleSubmit bs fmt s v g =
    Inr (s\<lparr>messages := messages s @
          [userMsg (g 0) (trim v), agentMsg (g 1) acknowledgement (Some (Some Info))]\<rparr>,
         \<lambda>n. g (Suc (Suc n)))"
  using assms
  by (simp add: handleSubmit_def dispatched_def userMessage_def agentMessage_def generateId_def)

lemma handleSubmit_beyond:
  assumes "trim v \<noteq> []" "status s = Collecting" "at bs (stepIndex s) = None"
  shows "handleSubmit bs fmt s v g =
    Inr (s\<lparr>messages := messages s @ [userMsg (g 0) (trim v)]\<rparr>, \<lambda>n. g (Suc n))"
  using assms
  by (simp add: handleSubmit_def dispatched_def userMessage_def generateId_def)

lemma handleSubmit_failure:
  assumes "trim v \<noteq> []" "status s = Collecting" "at bs (stepIndex s) = Some st"
    "parse st (trim v) (lead s) = Failure r"
  shows "handleSubmit bs fmt s v g =
    Inr (s\<lparr>messages := messages s @
          [userMsg (g 0) (trim v), agentMsg (g 1) r (Some (Some Info)),
           fst (questionForStep st (Some (stepIndex s)) (\<lambda>n. g (Suc (Suc n))))]\<rparr>,
         \<lambda>n. g (Suc (Suc (Suc n))))"
  using assms
  by (simp add: handleSubmit_def dispatched_def userMessage_def agentMessage_def generateId_def
      questionForStep_def Let_def)

lemma handleSubmit_advance:
  assumes "trim v \<noteq> []" "status s = Collecting" "at bs (stepIndex s) = Some st"
    "parse st (trim v) (lead s) = Success u f" "at bs (Suc (stepIndex s)) = Some nx"
  shows "handleSubmit bs fmt s v g =
    (let g1 = (\<lambda>n. g (Suc n)); (fums, g2) = followUpMessages f g1;
         (q, g3) = questionForStep nx (Some (Suc (stepIndex s))) g2
     in Inr (s\<lparr>stepIndex := Suc (stepIndex s), lead := mergeLead (lead s) u,
              messages := messages s @ [userMsg (g 0) (trim v)] @ fums @ [q]\<rparr>, g3))"
proof -
  from assms(5) have "\<not> length bs \<le> Suc (stepIndex s)"
    by (simp add: at_def split: if_splits)
  with assms show ?thesis
    by (simp add: handleSubmit_def dispatched_def userMessage_def generateId_def Let_def
        split: prod.splits)
qed

lemma handleSubmit_last:
  assumes "trim v \<noteq> []" "status s = Collecting" "at bs (stepIndex s) = Some st"
    "parse st (trim v) (lead s) = Success u f" "at bs (Suc (stepIndex s)) = None"
  shows "handleSubmit bs fmt s v g =
    (let g3 = (\<lambda>n. g (Suc (Suc (Suc n)))); (fums, g4) = followUpMessages f g3
     in Inr (s\<lparr>stepIndex := Suc (stepIndex s), lead := mergeLead (lead s) u,
              messages := messages s @ [userMsg (g 0) (trim v)] @ fums @
                [agentMsg (g4 0) closingFollowUp None,
                 agentMsg (g 1) (renderSummary fmt (mergeLead (lead s) u)) (Some (Some Summary)),
                 agentMsg (g 2) closingPrompt None],
              status := Complete\<rparr>, \<lambda>n. g4 (Suc n)))"
proof -
  from assms(5) have "length bs \<le> Suc (stepIndex s)"
    by (simp add: at_def split: if_splits)
  with assms show ?thesis
    by (simp add: handleSubmit_def dispatched_def userMessage_def agentMessage_def generateId_def
        Let_def followUpMessages_def closingFollowUp_ne numeral_2_eq_2 split: prod.splits)
qed

lemma followUpMessages_length: "length (fst (followUpMessages f g)) \<le> 1"
  by (cases f) (simp_all add: followUpMessages_def agentMessage_def generateId_def)

lemma followUpMessages_fst:
  "fst (followUpMessages f g) = (if truthy f then [agentMsg (g 0) (textOf f) None] else [])"
  by (cases f) (simp_all add: followUpMessages_def agentMessage_def generateId_def)

lemma questionForStep_fst:
  "fst (questionForStep step index g) =
     \<lparr>msgId = g 0, sender = Agent,
      content = (if index = None \<or> index = Some 0 then question step
                 else question step @
                   (if truthy (helper step) then [0x000A] @ textOf (helper step) else [])),
      msgSuggestions = suggestions step, meta = Some (Some Question)\<rparr>"
  by (cases "helper step") (simp_all add: questionForStep_def generateId_def)

lemma submit_last_props:
  assumes "trim v \<noteq> []" "status s = Collecting" "at bs (stepIndex s) = Some st"
    "parse st (trim v) (lead s) = Success u f" "at bs (Suc (stepIndex s)) = None"
  obtains s' g' where "handleSubmit bs fmt s v g = Inr (s', g')" "status s' = Complete"
    "stepIndex s' = Suc (stepIndex s)" "lead s' = mergeLead (lead s) u" "closes fmt s v s'"
proof -
  obtain fums g4 where fu: "followUpMessages f (\<lambda>n. g (Suc (Suc (Suc n)))) = (fums, g4)"
    by (cases "followUpMessages f (\<lambda>n. g (Suc (Suc (Suc n))))")
  have len: "length fums \<le> 1"
    using followUpMessages_length[of f "\<lambda>n. g (Suc (Suc (Suc n)))"] fu by simp
  let ?s' = "s\<lparr>stepIndex := Suc (stepIndex s), lead := mergeLead (lead s) u,
              messages := messages s @ [userMsg (g 0) (trim v)] @ fums @
                [agentMsg (g4 0) closingFollowUp None,
                 agentMsg (g 1) (renderSummary fmt (mergeLead (lead s) u)) (Some (Some Summary)),
                 agentMsg (g 2) closingPrompt None],
              status := Complete\<rparr>"
  have eq: "handleSubmit bs fmt s v g = Inr (?s', \<lambda>n. g4 (Suc n))"
    using handleSubmit_last[OF assms, of fmt g] fu by simp
  have cl: "closes fmt s v ?s'"
    unfolding closes_def using len
    by (intro exI[of _ "g 0"] exI[of _ fums] exI[of _ "g4 0"] exI[of _ "g 1"] exI[of _ "g 2"]) simp
  show thesis
    by (rule that[OF eq _ _ _ cl]) simp_all
qed

lemma submit_advance_props:
  assumes "trim v \<noteq> []" "status s = Collecting" "at bs (stepIndex s) = Some st"
    "parse st (trim v) (lead s) = Success u f" "at bs (Suc (stepIndex s)) = Some nx"
  obtains s' g' where "handleSubmit bs fmt s v g = Inr (s', g')" "status s' = Collecting"
    "stepIndex s' = Suc (stepIndex s)" "lead s' = mergeLead (lead s) u"
proof -
  obtain fums g2 where fu: "followUpMessages f (\<lambda>n. g (Suc n)) = (fums, g2)"
    by (cases "followUpMessages f (\<lambda>n. g (Suc n))")
  obtain q g3 where qu: "questionForStep nx (Some (Suc (stepIndex s))) g2 = (q, g3)"
    by (cases "questionForStep nx (Some (Suc (stepIndex s))) g2")
  let ?s' = "s\<lparr>stepIndex := Suc (stepIndex s), lead := mergeLead (lead s) u,
              messages := messages s @ [userMsg (g 0) (trim v)] @ fums @ [q]\<rparr>"
  have eq: "handleSubmit bs fmt s v g = Inr (?s', g3)"
    using handleSubmit_advance[OF assms, of fmt g] fu qu by simp
  show thesis
    by (rule that[OF eq]) (simp_all add: assms(2))
qed

section \<open>The status follows the cursor\<close>

lemma init_props:
  assumes "init bs g = Inr (s, g')"
  shows "stepIndex s = 0 \<and> status s = Collecting \<and> bs \<noteq> []"
  using assms
  by (auto simp: init_def at_def questionForStep_def generateId_def Let_def split: if_splits)

lemma handleSubmit_status:
  assumes "handleSubmit bs fmt s v g = Inr (s', g')"
    and "(status s = Complete) = (length bs \<le> stepIndex s)"
  shows "(status s' = Complete) = (length bs \<le> stepIndex s')"
proof (cases "trim v = []")
  case True
  with assms show ?thesis by (simp add: handleSubmit_blank)
next
  case nb: False
  show ?thesis
  proof (cases "status s")
    case Complete
    with assms show ?thesis by (auto simp: handleSubmit_complete[OF nb])
  next
    case Collecting
    with assms(2) have "stepIndex s < length bs" by simp
    then have st: "at bs (stepIndex s) = Some (bs ! stepIndex s)" by (simp add: at_def)
    show ?thesis
    proof (cases "parse (bs ! stepIndex s) (trim v) (lead s)")
      case (Failure r)
      with assms Collecting show ?thesis
        by (auto simp: handleSubmit_failure[OF nb Collecting st])
    next
      case (Success u f)
      show ?thesis
      proof (cases "at bs (Suc (stepIndex s))")
        case None
        then have "length bs \<le> Suc (stepIndex s)" by (simp add: at_def split: if_splits)
        with assms(1) show ?thesis
          by (auto simp: handleSubmit_last[OF nb Collecting st Success None] split: prod.splits)
      next
        case (Some nx)
        then have "\<not> length bs \<le> Suc (stepIndex s)" by (simp add: at_def split: if_splits)
        with assms(1) Collecting show ?thesis
          by (auto simp: handleSubmit_advance[OF nb Collecting st Success Some] split: prod.splits)
      qed
    qed
  qed
qed

lemma reachable_complete_iff:
  "reachable bs fmt s \<Longrightarrow> (status s = Complete) = (length bs \<le> stepIndex s)"
proof (induction rule: reachable.induct)
  case (start g s g')
  then show ?case using init_props by fastforce
next
  case (submit s v g s' g')
  then show ?case using handleSubmit_status by blast
next
  case (reset s g s' g')
  then have "init bs g = Inr (s', g')"
    by (simp add: resetConversation_def init_def)
  then show ?case using init_props by fastforce
qed

section \<open>Runs of accepted and of rejected answers\<close>

lemma submitAll_accepted:
  assumes "status s = Collecting" "stepIndex s + length vs = length bs" "vs \<noteq> []"
    "allAccepted bs (stepIndex s) (lead s) vs"
  shows "\<exists>tr g'. submitAll bs fmt s vs g = Inr (tr, g') \<and>
           map status tr = replicate (length vs - 1) Collecting @ [Complete] \<and>
           map stepIndex tr = [Suc (stepIndex s)..<Suc (length bs)] \<and>
           closes fmt (last (s # butlast tr)) (last vs) (last tr)"
  using assms
proof (induction vs arbitrary: s g)
  case Nil
  then show ?case by simp
next
  case (Cons v vs)
  from Cons.prems(4) have nb: "trim v \<noteq> []" by simp
  from Cons.prems(4) obtain st where st: "at bs (stepIndex s) = Some st"
    by (auto split: option.splits)
  from Cons.prems(4) st obtain u f where ok: "parse st (trim v) (lead s) = Success u f"
    and rest: "allAccepted bs (Suc (stepIndex s)) (mergeLead (lead s) u) vs"
    by (auto split: ParseResult.splits)
  show ?case
  proof (cases "vs = []")
    case True
    with Cons.prems(2) have "at bs (Suc (stepIndex s)) = None"
      by (simp add: at_def)
    from submit_last_props[OF nb Cons.prems(1) st ok this, of fmt g]
    obtain s' g' where "handleSubmit bs fmt s v g = Inr (s', g')" "status s' = Complete"
      "stepIndex s' = Suc (stepIndex s)" "lead s' = mergeLead (lead s) u" "closes fmt s v s'"
      by blast
    with True Cons.prems(2) show ?thesis by simp
  next
    case False
    with Cons.prems(2) have "Suc (stepIndex s) < length bs"
      by (cases vs) simp_all
    then have "at bs (Suc (stepIndex s)) = Some (bs ! Suc (stepIndex s))"
      by (simp add: at_def)
    from submit_advance_props[OF nb Cons.prems(1) st ok this, of fmt g]
    obtain s' g' where s': "handleSubmit bs fmt s v g = Inr (s', g')" "status s' = Collecting"
      "stepIndex s' = Suc (stepIndex s)" "lead s' = mergeLead (lead s) u"
      by blast
    have "stepIndex s' + length vs = length bs"
      using s'(3) Cons.prems(2) by simp
    moreover have "allAccepted bs (stepIndex s') (lead s') vs"
      using rest s'(3,4) by simp
    ultimately obtain tr g'' where tr: "submitAll bs fmt s' vs g' = Inr (tr, g'')"
      "map status tr = replicate (length vs - 1) Collecting @ [Complete]"
      "map stepIndex tr = [Suc (stepIndex s')..<Suc (length bs)]"
      "closes fmt (last (s' # butlast tr)) (last vs) (last tr)"
      using Cons.IH[OF s'(2) _ False, of g'] by blast
    from tr(2) have ne: "tr \<noteq> []" by auto
    have 1: "submitAll bs fmt s (v # vs) g = Inr (s' # tr, g'')"
      using s'(1) tr(1) by simp
    have 2: "map status (s' # tr) = replicate (length (v # vs) - 1) Collecting @ [Complete]"
      using tr(2) s'(2) False by (cases vs) simp_all
    have 3: "map stepIndex (s' # tr) = [Suc (stepIndex s)..<Suc (length bs)]"
      using tr(3) s'(3) \<open>Suc (stepIndex s) < length bs\<close> by (simp add: upt_conv_Cons)
    have 4: "closes fmt (last (s # butlast (s' # tr))) (last (v # vs)) (last (s' # tr))"
      using tr(4) ne False by simp
    from 1 2 3 4 show ?thesis by blast
  qed
qed

lemma rejected_failure:
  assumes "rejected st l v"
  obtains r where "trim v \<noteq> []" "parse st (trim v) l = Failure r"
  using assms by (auto simp: rejected_def split: ParseResult.splits)

lemma submitAll_rejected:
  assumes "status s = Collecting" "at bs (stepIndex s) = Some st"
    "\<forall>v\<in>set vs. rejected st (lead s) v"
  shows "\<exists>tr g'. submitAll bs fmt s vs g = Inr (tr, g') \<and> length tr = length vs \<and>
           (\<forall>t\<in>set (s # tr). stepIndex t = stepIndex s \<and> lead t = lead s \<and> status t = Collecting)"
  using assms
proof (induction vs arbitrary: s g)
  case Nil
  then show ?case by simp
next
  case (Cons v vs)
  from Cons.prems(3) have "rejected st (lead s) v" by simp
  then obtain r where nb: "trim v \<noteq> []" and fl: "parse st (trim v) (lead s) = Failure r"
    by (rule rejected_failure)
  let ?s' = "s\<lparr>messages := messages s @
          [userMsg (g 0) (trim v), agentMsg (g 1) r (Some (Some Info)),
           fst (questionForStep st (Some (stepIndex s)) (\<lambda>n. g (Suc (Suc n))))]\<rparr>"
  have eq: "handleSubmit bs fmt s v g = Inr (?s', \<lambda>n. g (Suc (Suc (Suc n))))"
    by (rule handleSubmit_failure[OF nb Cons.prems(1) Cons.prems(2) fl])
  have "\<exists>tr g'. submitAll bs fmt ?s' vs (\<lambda>n. g (Suc (Suc (Suc n)))) = Inr (tr, g') \<and>
          length tr = length vs \<and>
          (\<forall>t\<in>set (?s' # tr). stepIndex t = stepIndex ?s' \<and> lead t = lead ?s' \<and> status t = Collecting)"
    using Cons.prems by (intro Cons.IH) simp_all
  then obtain tr g' where tr: "submitAll bs fmt ?s' vs (\<lambda>n. g (Suc (Suc (Suc n)))) = Inr (tr, g')"
    "length tr = length vs"
    "\<forall>t\<in>set (?s' # tr). stepIndex t = stepIndex ?s' \<and> lead t = lead ?s' \<and> status t = Collecting"
    by blast
  have "submitAll bs fmt s (v # vs) g = Inr (?s' # tr, g')"
    using eq tr(1) by simp
  moreover have "length (?s' # tr) = length (v # vs)"
    using tr(2) by simp
  moreover have "\<forall>t\<in>set (s # ?s' # tr). stepIndex t = stepIndex s \<and> lead t = lead s \<and> status t = Collecting"
    using tr(3) Cons.prems(1) by simp
  ultimately show ?case by blast
qed

section \<open>The record and the summary\<close>

lemma mergeLead_unchanged: "unchangedWhereAbsent l u (mergeLead l u)"
  by (simp add: unchangedWhereAbsent_def mergeLead_def)

lemma mergeLead_merged: "mergedRecord l u (mergeLead l u)"
  by (simp add: mergedRecord_def mergeLead_def split: option.splits)

lemma bullet_ne: "bullet @ x \<noteq> []"
  by (simp add: bullet_def)

lemma filterBoolean_Cons:
  "filterBoolean (x # xs) =
     (case x of None \<Rightarrow> [] | Some s \<Rightarrow> if s \<noteq> [] then [s] else []) @ filterBoolean xs"
  by (cases x) simp_all

lemma nullish_eq: "nullish x d = (if x = None then d else textOf x)"
  by (cases x) simp_all

lemma filterBoolean_whenTruthy:
  "(case whenTruthy x f of None \<Rightarrow> [] | Some s \<Rightarrow> if s \<noteq> [] then [s] else []) =
   (if truthy x \<and> f (textOf x) \<noteq> [] then [f (textOf x)] else [])"
  by (cases x) (simp_all add: whenTruthy_def)

section \<open>The sample configuration, evaluated\<close>

lemma trim_Acme: "trim (lit ''Acme'') = lit ''Acme''"
  by (simp add: trim_def lit_def isWhiteSpace_def whiteSpace_def)

lemma trim_grow: "trim (lit '' grow '') = lit ''grow''"
  by (simp add: trim_def lit_def isWhiteSpace_def whiteSpace_def)

lemma trim_A: "trim (lit ''A'') = lit ''A''"
  by (simp add: trim_def lit_def isWhiteSpace_def whiteSpace_def)

lemma trim_B: "trim (lit '' B '') = lit ''B''"
  by (simp add: trim_def lit_def isWhiteSpace_def whiteSpace_def)

lemma init_sample: "init sampleSteps sampleIds = Inr (sampleStart, \<lambda>n. sampleIds (Suc n))"
  by (simp add: init_def sampleSteps_def sampleIds_def sampleStart_def at_def
      questionForStep_def generateId_def)

lemma at_sample0: "at sampleSteps (stepIndex sampleStart) = Some (sampleSteps ! 0)"
  by (simp add: at_def sampleSteps_def sampleStart_def)

lemma submit_sampleStart:
  "handleSubmit sampleSteps sampleFormat sampleStart (lit ''Acme'') sampleIds =
     Inr (sampleAnswered, \<lambda>n. sampleIds (Suc (Suc (Suc n))))"
proof -
  have n: "trim (lit ''Acme'') \<noteq> []"
    by (simp add: trim_def lit_def isWhiteSpace_def whiteSpace_def)
  have c: "status sampleStart = Collecting"
    by (simp add: sampleStart_def)
  have p: "parse (sampleSteps ! 0) (trim (lit ''Acme'')) (lead sampleStart) =
             Success (noUpdates\<lparr>setCompanyName := Some (Some (lit ''Acme''))\<rparr>) (Some (lit ''Thanks!''))"
    by (simp add: trim_def lit_def isWhiteSpace_def whiteSpace_def sampleSteps_def)
  have e: "at sampleSteps (Suc (stepIndex sampleStart)) = Some (sampleSteps ! 1)"
    by (simp add: at_def sampleSteps_def sampleStart_def)
  have m: "mergeLead (lead sampleStart) (noUpdates\<lparr>setCompanyName := Some (Some (lit ''Acme''))\<rparr>) =
             emptyLead\<lparr>companyName := Some (lit ''Acme'')\<rparr>"
    by (simp add: mergeLead_def sampleStart_def noUpdates_def emptyLead_def)
  have t: "lit ''Thanks!'' \<noteq> []" "lit ''One sentence is enough.'' \<noteq> []"
    by (simp_all add: lit_def)
  show ?thesis
    unfolding handleSubmit_advance[OF n c at_sample0 p e] m
    by (simp add: followUpMessages_def agentMessage_def questionForStep_def generateId_def t
        trim_Acme sampleStart_def sampleAnswered_def sampleIds_def sampleSteps_def)
qed

lemma submit_sampleAnswered:
  "handleSubmit sampleSteps sampleFormat sampleAnswered (lit '' grow '') sampleIds =
     Inr (sampleDone, \<lambda>n. sampleIds (Suc (Suc (Suc (Suc n)))))"
proof -
  have a: "at sampleSteps (stepIndex sampleAnswered) = Some (sampleSteps ! 1)"
    by (simp add: at_def sampleSteps_def sampleAnswered_def)
  have n: "trim (lit '' grow '') \<noteq> []"
    by (simp add: trim_def lit_def isWhiteSpace_def whiteSpace_def)
  have c: "status sampleAnswered = Collecting"
    by (simp add: sampleAnswered_def)
  have p: "parse (sampleSteps ! 1) (trim (lit '' grow '')) (lead sampleAnswered) =
             Success (noUpdates\<lparr>setPrimaryGoal := Some (Some (lit ''grow''))\<rparr>) None"
    by (simp add: trim_def lit_def isWhiteSpace_def whiteSpace_def sampleSteps_def)
  have e: "at sampleSteps (Suc (stepIndex sampleAnswered)) = None"
    by (simp add: at_def sampleSteps_def sampleAnswered_def)
  have m: "mergeLead (lead sampleAnswered) (noUpdates\<lparr>setPrimaryGoal := Some (Some (lit ''grow''))\<rparr>) =
             emptyLead\<lparr>companyName := Some (lit ''Acme''), primaryGoal := Some (lit ''grow'')\<rparr>"
    by (simp add: mergeLead_def sampleAnswered_def noUpdates_def emptyLead_def)
  show ?thesis
    unfolding handleSubmit_last[OF n c a p e] m
    by (simp add: followUpMessages_def trim_grow sampleIds_def)
       (simp add: sampleAnswered_def sampleDone_def)
qed

lemma reachable_sampleDone: "reachable sampleSteps sampleFormat sampleDone"
proof -
  have "reachable sampleSteps sampleFormat sampleStart"
    by (rule reachable.start[OF init_sample])
  then have "reachable sampleSteps sampleFormat sampleAnswered"
    by (rule reachable.submit[OF _ submit_sampleStart])
  then show ?thesis
    by (rule reachable.submit[OF _ submit_sampleAnswered])
qed

lemma trim_blank_sample: "trim ([0x0009] @ lit ''  '' @ [0x00A0, 0x000A]) = []"
  by (simp add: trim_def lit_def isWhiteSpace_def whiteSpace_def)

section \<open>The log only grows\<close>

lemma handleSubmit_prefix:
  "\<exists>s' g'. handleSubmit bs fmt s v g = Inr (s', g') \<and> prefix (messages s) (messages s')"
proof (cases "trim v = []")
  case True
  then show ?thesis by (simp add: handleSubmit_blank)
next
  case nb: False
  show ?thesis
  proof (cases "status s")
    case Complete
    then show ?thesis by (simp add: handleSubmit_complete[OF nb])
  next
    case Collecting
    show ?thesis
    proof (cases "at bs (stepIndex s)")
      case None
      then show ?thesis by (simp add: handleSubmit_beyond[OF nb Collecting])
    next
      case (Some st)
      show ?thesis
      proof (cases "parse st (trim v) (lead s)")
        case (Failure r)
        then show ?thesis by (simp add: handleSubmit_failure[OF nb Collecting Some])
      next
        case (Success u f)
        show ?thesis
        proof (cases "at bs (Suc (stepIndex s))")
          case None
          then show ?thesis
            by (simp add: handleSubmit_last[OF nb Collecting Some Success] split: prod.splits)
        next
          case (Some nx)
          then show ?thesis
            by (simp add: handleSubmit_advance[OF nb Collecting \<open>at bs (stepIndex s) = Some st\<close> Success]
                split: prod.splits)
        qed
      qed
    qed
  qed
qed

lemma reducer_prefix:
  assumes "a \<noteq> INIT" "a \<noteq> RESET" "reducer bs s a g = Inr (s2, g2)"
  shows "prefix (messages s) (messages s2)"
  using assms
  by (cases a) (auto simp: Let_def split: prod.splits option.splits)

section \<open>The claims\<close>

subsection \<open>C1: the conversation completes with the last accepted answer\<close>

text \<open>
  Claim C1. Let there be \<open>N \<ge> 1\<close> steps and \<open>N\<close> submissions, each accepted by its
  step (not blank, and the parse contract of the step succeeds on the trimmed text, given
  the record built so far). Started from the initial state, the engine answers every
  submission; the status is collecting in the initial state and after each of the first
  \<open>N - 1\<close> submissions, and complete after the \<open>N\<close>-th: it becomes complete once, with the
  \<open>N\<close>-th submission, whatever the answers say. The cursor counts the submissions. The
  last submission logs the user's message, at most one follow-up of the parse, then the
  closing follow-up, the summary of the final record and the closing prompt.
\<close>

theorem complete_after_all_steps:
  assumes "bs \<noteq> []" and "length vs = length bs" and "allAccepted bs 0 emptyLead vs"
  shows "\<exists>tr g'. conversation bs fmt vs g = Inr (tr, g') \<and>
           map status tr = replicate (length bs) Collecting @ [Complete] \<and>
           map stepIndex tr = [0..<Suc (length bs)] \<and>
           closes fmt (last (butlast tr)) (last vs) (last tr)"
proof -
  from assms(1) obtain s0 g0 where i: "init bs g = Inr (s0, g0)"
    and s0: "stepIndex s0 = 0" "lead s0 = emptyLead" "status s0 = Collecting"
    by (cases bs) (simp_all add: init_def at_def questionForStep_def generateId_def)
  from assms(1,2) have ne: "vs \<noteq> []" by auto
  from submitAll_accepted[of s0 vs bs fmt g0] s0 assms ne
  obtain tr g' where tr: "submitAll bs fmt s0 vs g0 = Inr (tr, g')"
    "map status tr = replicate (length vs - 1) Collecting @ [Complete]"
    "map stepIndex tr = [Suc 0..<Suc (length bs)]"
    "closes fmt (last (s0 # butlast tr)) (last vs) (last tr)"
    by auto
  from tr(2) have tne: "tr \<noteq> []" by auto
  have 1: "conversation bs fmt vs g = Inr (s0 # tr, g')"
    using i tr(1) by (simp add: conversation_def)
  have 2: "map status (s0 # tr) = replicate (length bs) Collecting @ [Complete]"
  proof -
    from ne assms(2) have "length bs = Suc (length vs - 1)" by (cases vs) simp_all
    then have "replicate (length bs) Collecting = Collecting # replicate (length vs - 1) Collecting"
      by simp
    with tr(2) s0(3) show ?thesis by simp
  qed
  have 3: "map stepIndex (s0 # tr) = [0..<Suc (length bs)]"
  proof -
    have "[0..<Suc (length bs)] = 0 # [Suc 0..<Suc (length bs)]"
      by (rule upt_conv_Cons) simp
    with tr(3) s0(1) show ?thesis by (simp del: upt_Suc)
  qed
  have 4: "closes fmt (last (butlast (s0 # tr))) (last vs) (last (s0 # tr))"
    using tr(4) tne by simp
  from 1 2 3 4 show ?thesis by blast
qed

theorem complete_after_all_steps_witness:
  "sampleSteps \<noteq> [] \<and>
   length [lit ''Acme'', lit '' grow ''] = length sampleSteps \<and>
   allAccepted sampleSteps 0 emptyLead [lit ''Acme'', lit '' grow ''] \<and>
   (\<exists>tr g'. conversation sampleSteps sampleFormat [lit ''Acme'', lit '' grow ''] sampleIds = Inr (tr, g') \<and>
      map status tr = [Collecting, Collecting, Complete] \<and>
      map stepIndex tr = [0, 1, 2] \<and>
      closes sampleFormat (last (butlast tr)) (lit '' grow '') (last tr))"
proof -
  have h1: "sampleSteps \<noteq> []"
    by (simp add: sampleSteps_def)
  have h2: "length [lit ''Acme'', lit '' grow ''] = length sampleSteps"
    by (simp add: sampleSteps_def)
  have h3: "allAccepted sampleSteps 0 emptyLead [lit ''Acme'', lit '' grow '']"
    by (simp add: trim_def lit_def isWhiteSpace_def whiteSpace_def sampleSteps_def at_def)
  have l: "length sampleSteps = 2"
    by (simp add: sampleSteps_def)
  from complete_after_all_steps[OF h1 h2 h3, of sampleFormat sampleIds] h1 h2 h3
  show ?thesis
    by (simp add: l numeral_2_eq_2 upt_conv_Cons)
qed

subsection \<open>C2: a rejected answer is retried\<close>

text \<open>
  Claim C2. In a collecting state whose cursor is at a step, a submission that is not
  blank and that the step's parse contract rejects appends exactly three messages: the
  user's message, an info message with the retry text of the parse, and the question of
  the step again; nothing else of the state changes. Hence after any number of such
  submissions in a row the cursor, the record and the status are those of the start, and
  the first accepted submission after them moves the cursor by one and merges its updates
  into the record. An input is read as not empty when it is not empty once trimmed, the
  test that \<^verbatim>\<open>handleSubmit\<close> applies before anything else.
\<close>

theorem rejected_submit_retries:
  assumes "status s = Collecting" and "at bs (stepIndex s) = Some st"
  shows "(trim v \<noteq> [] \<and> parse st (trim v) (lead s) = Failure r \<longrightarrow>
            handleSubmit bs fmt s v g =
              Inr (s\<lparr>messages := messages s @
                     [userMsg (g 0) (trim v), agentMsg (g 1) r (Some (Some Info)),
                      fst (questionForStep st (Some (stepIndex s)) (\<lambda>n. g (Suc (Suc n))))]\<rparr>,
                   \<lambda>n. g (Suc (Suc (Suc n))))) \<and>
         ((\<forall>x\<in>set vs. rejected st (lead s) x) \<longrightarrow>
            (\<exists>tr g'. submitAll bs fmt s vs g = Inr (tr, g') \<and> length tr = length vs \<and>
               (\<forall>t\<in>set tr. stepIndex t = stepIndex s \<and> lead t = lead s \<and> status t = Collecting) \<and>
               (\<forall>w u f. trim w \<noteq> [] \<and> parse st (trim w) (lead s) = Success u f \<longrightarrow>
                  (\<exists>s' g''. handleSubmit bs fmt (last (s # tr)) w g' = Inr (s', g'') \<and>
                     stepIndex s' = Suc (stepIndex s) \<and> lead s' = mergeLead (lead s) u))))"
proof (intro conjI impI)
  assume "trim v \<noteq> [] \<and> parse st (trim v) (lead s) = Failure r"
  then show "handleSubmit bs fmt s v g =
              Inr (s\<lparr>messages := messages s @
                     [userMsg (g 0) (trim v), agentMsg (g 1) r (Some (Some Info)),
                      fst (questionForStep st (Some (stepIndex s)) (\<lambda>n. g (Suc (Suc n))))]\<rparr>,
                   \<lambda>n. g (Suc (Suc (Suc n))))"
    using handleSubmit_failure[OF _ assms] by blast
next
  assume rej: "\<forall>x\<in>set vs. rejected st (lead s) x"
  from submitAll_rejected[OF assms rej, of fmt g]
  obtain tr g' where tr: "submitAll bs fmt s vs g = Inr (tr, g')" "length tr = length vs"
    "\<forall>t\<in>set (s # tr). stepIndex t = stepIndex s \<and> lead t = lead s \<and> status t = Collecting"
    by blast
  have lst: "stepIndex (last (s # tr)) = stepIndex s \<and> lead (last (s # tr)) = lead s \<and>
             status (last (s # tr)) = Collecting"
    using tr(3) last_in_set[of "s # tr"] by blast
  have adv: "\<exists>s' g''. handleSubmit bs fmt (last (s # tr)) w g' = Inr (s', g'') \<and>
                     stepIndex s' = Suc (stepIndex s) \<and> lead s' = mergeLead (lead s) u"
    if w: "trim w \<noteq> [] \<and> parse st (trim w) (lead s) = Success u f" for w u f
  proof (cases "at bs (Suc (stepIndex s))")
    case None
    from submit_last_props[of w "last (s # tr)" bs st u f fmt g'] w lst assms(2) None
    show ?thesis by (metis (no_types, lifting))
  next
    case (Some nx)
    from submit_advance_props[of w "last (s # tr)" bs st u f nx fmt g'] w lst assms(2) Some
    show ?thesis by (metis (no_types, lifting))
  qed
  show "\<exists>tr g'. submitAll bs fmt s vs g = Inr (tr, g') \<and> length tr = length vs \<and>
               (\<forall>t\<in>set tr. stepIndex t = stepIndex s \<and> lead t = lead s \<and> status t = Collecting) \<and>
               (\<forall>w u f. trim w \<noteq> [] \<and> parse st (trim w) (lead s) = Success u f \<longrightarrow>
                  (\<exists>s' g''. handleSubmit bs fmt (last (s # tr)) w g' = Inr (s', g'') \<and>
                     stepIndex s' = Suc (stepIndex s) \<and> lead s' = mergeLead (lead s) u))"
    using tr adv by (intro exI[of _ tr] exI[of _ g']) simp
qed

theorem rejected_submit_retries_witness:
  "status sampleStart = Collecting \<and>
   at sampleSteps (stepIndex sampleStart) = Some (sampleSteps ! 0) \<and>
   trim (lit ''A'') \<noteq> [] \<and>
   parse (sampleSteps ! 0) (trim (lit ''A'')) (lead sampleStart) = Failure (lit ''Please name the company.'') \<and>
   handleSubmit sampleSteps sampleFormat sampleStart (lit ''A'') sampleIds =
     Inr (sampleStart\<lparr>messages := messages sampleStart @
            [userMsg [0] (lit ''A''),
             agentMsg [1] (lit ''Please name the company.'') (Some (Some Info)),
             \<lparr>msgId = [2], sender = Agent, content = lit ''Which company?'',
               msgSuggestions = Some [lit ''Acme''], meta = Some (Some Question)\<rparr>]\<rparr>,
          \<lambda>n. sampleIds (Suc (Suc (Suc n)))) \<and>
   rejected (sampleSteps ! 0) (lead sampleStart) (lit ''A'') \<and>
   rejected (sampleSteps ! 0) (lead sampleStart) (lit '' B '') \<and>
   trim (lit ''Acme'') \<noteq> [] \<and>
   (\<exists>tr g'. submitAll sampleSteps sampleFormat sampleStart [lit ''A'', lit '' B ''] sampleIds = Inr (tr, g') \<and>
      length tr = 2 \<and> map stepIndex tr = [0, 0] \<and> map lead tr = [emptyLead, emptyLead] \<and>
      (\<exists>s' g''. handleSubmit sampleSteps sampleFormat (last (sampleStart # tr)) (lit ''Acme'') g' = Inr (s', g'') \<and>
         stepIndex s' = 1 \<and> companyName (lead s') = Some (lit ''Acme'')))"
proof -
  have c: "status sampleStart = Collecting"
    by (simp add: sampleStart_def)
  have nA: "trim (lit ''A'') \<noteq> []"
    by (simp add: trim_def lit_def isWhiteSpace_def whiteSpace_def)
  have fA: "parse (sampleSteps ! 0) (trim (lit ''A'')) (lead sampleStart) = Failure (lit ''Please name the company.'')"
    by (simp add: trim_def lit_def isWhiteSpace_def whiteSpace_def sampleSteps_def)
  have rA: "rejected (sampleSteps ! 0) (lead sampleStart) (lit ''A'')"
    using nA fA by (simp add: rejected_def)
  have rB: "rejected (sampleSteps ! 0) (lead sampleStart) (lit '' B '')"
    by (simp add: rejected_def trim_def lit_def isWhiteSpace_def whiteSpace_def sampleSteps_def)
  have nW: "trim (lit ''Acme'') \<noteq> []"
    by (simp add: trim_def lit_def isWhiteSpace_def whiteSpace_def)
  have pW: "parse (sampleSteps ! 0) (trim (lit ''Acme'')) (lead sampleStart) =
             Success (noUpdates\<lparr>setCompanyName := Some (Some (lit ''Acme''))\<rparr>) (Some (lit ''Thanks!''))"
    by (simp add: trim_def lit_def isWhiteSpace_def whiteSpace_def sampleSteps_def)
  have all: "\<forall>x\<in>set [lit ''A'', lit '' B '']. rejected (sampleSteps ! 0) (lead sampleStart) x"
    using rA rB by simp
  note inst = rejected_submit_retries[OF c at_sample0, of "lit ''A''" "lit ''Please name the company.''"
      sampleFormat sampleIds "[lit ''A'', lit '' B '']"]
  from inst nA fA have one: "handleSubmit sampleSteps sampleFormat sampleStart (lit ''A'') sampleIds =
     Inr (sampleStart\<lparr>messages := messages sampleStart @
            [userMsg [0] (lit ''A''),
             agentMsg [1] (lit ''Please name the company.'') (Some (Some Info)),
             \<lparr>msgId = [2], sender = Agent, content = lit ''Which company?'',
               msgSuggestions = Some [lit ''Acme''], meta = Some (Some Question)\<rparr>]\<rparr>,
          \<lambda>n. sampleIds (Suc (Suc (Suc n))))"
    by (simp add: trim_A questionForStep_def generateId_def sampleIds_def sampleSteps_def
        sampleStart_def)
  from inst all obtain tr g' where tr:
    "submitAll sampleSteps sampleFormat sampleStart [lit ''A'', lit '' B ''] sampleIds = Inr (tr, g')"
    "length tr = length [lit ''A'', lit '' B '']"
    "\<forall>t\<in>set tr. stepIndex t = stepIndex sampleStart \<and> lead t = lead sampleStart \<and> status t = Collecting"
    "\<forall>w u f. trim w \<noteq> [] \<and> parse (sampleSteps ! 0) (trim w) (lead sampleStart) = Success u f \<longrightarrow>
        (\<exists>s' g''. handleSubmit sampleSteps sampleFormat (last (sampleStart # tr)) w g' = Inr (s', g'') \<and>
           stepIndex s' = Suc (stepIndex sampleStart) \<and> lead s' = mergeLead (lead sampleStart) u)"
    by blast
  from tr(2) obtain t1 t2 where t12: "tr = [t1, t2]"
    by (cases tr; cases "tl tr") auto
  from tr(4) nW pW obtain s' g'' where s':
    "handleSubmit sampleSteps sampleFormat (last (sampleStart # tr)) (lit ''Acme'') g' = Inr (s', g'')"
    "stepIndex s' = Suc (stepIndex sampleStart)"
    "lead s' = mergeLead (lead sampleStart) (noUpdates\<lparr>setCompanyName := Some (Some (lit ''Acme''))\<rparr>)"
    by blast
  have fin: "stepIndex s' = 1 \<and> companyName (lead s') = Some (lit ''Acme'')"
    using s'(2,3) by (simp add: sampleStart_def mergeLead_def noUpdates_def)
  have maps: "map stepIndex tr = [0, 0] \<and> map lead tr = [emptyLead, emptyLead]"
    using tr(3) t12 by (simp add: sampleStart_def)
  show ?thesis
    using c at_sample0 nA fA one rA rB nW tr(1) t12 maps s'(1) fin by auto
qed

subsection \<open>C3: a blank submission\<close>

text \<open>
  Claim C3 says that an empty or blank input is answered by a retry message. The handler
  returns before it dispatches anything: at the initial state of the sample
  configuration, three spaces leave the state, and so the log, as they were.
\<close>

theorem blank_submit_counterexample:
  "trim (lit ''   '') = [] \<and>
   handleSubmit sampleSteps sampleFormat sampleStart (lit ''   '') sampleIds =
     Inr (sampleStart, sampleIds)"
  by (simp add: handleSubmit_def dispatched_def trim_def lit_def isWhiteSpace_def whiteSpace_def)

text \<open>
  Claim C3, amended. For every state and every input that is empty or consists of white
  space only, the submission is ignored: the state is returned as it is, so no message is
  logged, no retry is produced, and the cursor and the record stay (the step is not
  skipped); no identifier is drawn.
\<close>

theorem blank_submit_ignored:
  assumes "trim v = []"
  shows "handleSubmit bs fmt s v g = Inr (s, g)"
  by (rule handleSubmit_blank[OF assms])

theorem blank_submit_ignored_witness:
  "trim ([0x0009] @ lit ''  '' @ [0x00A0, 0x000A]) = [] \<and>
   handleSubmit sampleSteps sampleFormat (sampleStart\<lparr>stepIndex := 1\<rparr>)
     ([0x0009] @ lit ''  '' @ [0x00A0, 0x000A]) sampleIds =
   Inr (sampleStart\<lparr>stepIndex := 1\<rparr>, sampleIds)"
  using blank_submit_ignored [OF trim_blank_sample, of sampleSteps sampleFormat "sampleStart\<lparr>stepIndex := 1\<rparr>" sampleIds]
    trim_blank_sample
  by simp

subsection \<open>C4: an accepted answer advances\<close>

text \<open>
  Claim C4 calls the follow-up that the parse returns an info message. The reducer creates
  it by \<^verbatim>\<open>agentMessage(action.followUp)\<close>, with no \<^verbatim>\<open>meta\<close>: in the sample
  configuration the answer \<^verbatim>\<open>Acme\<close> to the first step is followed by the message
  \<^verbatim>\<open>Thanks!\<close>, which carries no tag, where the retry message of a rejected answer carries
  the tag info.
\<close>

theorem followup_untagged_counterexample:
  "handleSubmit sampleSteps sampleFormat sampleStart (lit ''Acme'') sampleIds =
     Inr (\<lparr>stepIndex = 1, lead = emptyLead\<lparr>companyName := Some (lit ''Acme'')\<rparr>,
           messages = messages sampleStart @
             [userMsg [0] (lit ''Acme''),
              \<lparr>msgId = [1], sender = Agent, content = lit ''Thanks!'', msgSuggestions = None,
                meta = None\<rparr>,
              \<lparr>msgId = [2], sender = Agent,
                content = lit ''What is the goal?'' @ [0x000A] @ lit ''One sentence is enough.'',
                msgSuggestions = None, meta = Some (Some Question)\<rparr>],
           status = Collecting\<rparr>,
          \<lambda>n. sampleIds (Suc (Suc (Suc n)))) \<and>
   meta \<lparr>msgId = [1], sender = Agent, content = lit ''Thanks!'', msgSuggestions = None,
          meta = None\<rparr> \<noteq> Some (Some Info)"
  using submit_sampleStart by (simp add: sampleAnswered_def sampleStart_def)

text \<open>
  Claim C4, amended. In a collecting state whose cursor is at a step, a submission that is
  not blank and that the step's parse contract accepts is answered with a state in which
  the cursor is one further and the record is the old record merged with the updates of
  the parse: a field that the updates name holds the value they give it, and a field they
  do not mention keeps its value. The log grows by the user's message, then the follow-up
  of the parse when there is one and it is not empty, an agent message with no suggestions
  and no tag (it is not tagged info), then, if there is a next step, its question: the
  question text, followed by a line break and the helper text when the step has a helper
  that is not empty; the state stays collecting. If there is no next step the state
  becomes complete and the log ends with the closing follow-up, the summary and the
  closing prompt. A question asked without an index or with index 0 shows the question
  text alone.
\<close>

theorem accepted_submit_advances:
  assumes "status s = Collecting" and "at bs (stepIndex s) = Some st" and "trim v \<noteq> []"
    and "parse st (trim v) (lead s) = Success u f"
  shows "\<exists>s' g' fums rest.
           handleSubmit bs fmt s v g = Inr (s', g') \<and>
           stepIndex s' = Suc (stepIndex s) \<and>
           mergedRecord (lead s) u (lead s') \<and> unchangedWhereAbsent (lead s) u (lead s') \<and>
           messages s' = messages s @ [userMsg (g 0) (trim v)] @ fums @ rest \<and>
           (if truthy f then (\<exists>i. fums = [agentMsg i (textOf f) None]) else fums = []) \<and>
           (case at bs (Suc (stepIndex s)) of
              None \<Rightarrow>
                status s' = Complete \<and>
                (\<exists>i1 i2 i3. rest =
                   [agentMsg i1 closingFollowUp None,
                    agentMsg i2 (renderSummary fmt (lead s')) (Some (Some Summary)),
                    agentMsg i3 closingPrompt None])
            | Some nx \<Rightarrow>
                status s' = Collecting \<and>
                (\<exists>i. rest =
                   [\<lparr>msgId = i, sender = Agent,
                     content = question nx @
                       (if truthy (helper nx) then [0x000A] @ textOf (helper nx) else []),
                     msgSuggestions = suggestions nx, meta = Some (Some Question)\<rparr>])) \<and>
           content (fst (questionForStep st None g)) = question st \<and>
           content (fst (questionForStep st (Some 0) g)) = question st"
proof -
  have q0: "content (fst (questionForStep st None g)) = question st \<and>
            content (fst (questionForStep st (Some 0) g)) = question st"
    by (simp add: questionForStep_fst)
  note mg = mergeLead_merged[of "lead s" u] mergeLead_unchanged[of "lead s" u]
  show ?thesis
  proof (cases "at bs (Suc (stepIndex s))")
    case None
    obtain fums g4 where fu: "followUpMessages f (\<lambda>n. g (Suc (Suc (Suc n)))) = (fums, g4)"
      by (cases "followUpMessages f (\<lambda>n. g (Suc (Suc (Suc n))))")
    have fums: "if truthy f then (\<exists>i. fums = [agentMsg i (textOf f) None]) else fums = []"
      using followUpMessages_fst[of f "\<lambda>n. g (Suc (Suc (Suc n)))"] fu by simp
    let ?rest = "[agentMsg (g4 0) closingFollowUp None,
                 agentMsg (g 1) (renderSummary fmt (mergeLead (lead s) u)) (Some (Some Summary)),
                 agentMsg (g 2) closingPrompt None]"
    let ?s' = "s\<lparr>stepIndex := Suc (stepIndex s), lead := mergeLead (lead s) u,
              messages := messages s @ [userMsg (g 0) (trim v)] @ fums @ ?rest,
              status := Complete\<rparr>"
    have eq: "handleSubmit bs fmt s v g = Inr (?s', \<lambda>n. g4 (Suc n))"
      using handleSubmit_last[OF assms(3) assms(1) assms(2) assms(4) None, of fmt g] fu by simp
    have rest: "\<exists>i1 i2 i3. ?rest =
                   [agentMsg i1 closingFollowUp None,
                    agentMsg i2 (renderSummary fmt (lead ?s')) (Some (Some Summary)),
                    agentMsg i3 closingPrompt None]"
      by simp
    show ?thesis
      apply (rule exI[of _ ?s'], rule exI[of _ "\<lambda>n. g4 (Suc n)"])
      apply (rule exI[of _ fums], rule exI[of _ ?rest])
      using eq fums q0 None mg rest by simp
  next
    case (Some nx)
    obtain fums g2 where fu: "followUpMessages f (\<lambda>n. g (Suc n)) = (fums, g2)"
      by (cases "followUpMessages f (\<lambda>n. g (Suc n))")
    have fums: "if truthy f then (\<exists>i. fums = [agentMsg i (textOf f) None]) else fums = []"
      using followUpMessages_fst[of f "\<lambda>n. g (Suc n)"] fu by simp
    obtain q g3 where qu: "questionForStep nx (Some (Suc (stepIndex s))) g2 = (q, g3)"
      by (cases "questionForStep nx (Some (Suc (stepIndex s))) g2")
    have q: "q = \<lparr>msgId = g2 0, sender = Agent,
                 content = question nx @
                   (if truthy (helper nx) then [0x000A] @ textOf (helper nx) else []),
                 msgSuggestions = suggestions nx, meta = Some (Some Question)\<rparr>"
      using questionForStep_fst[of nx "Some (Suc (stepIndex s))" g2] qu by simp
    let ?s' = "s\<lparr>stepIndex := Suc (stepIndex s), lead := mergeLead (lead s) u,
              messages := messages s @ [userMsg (g 0) (trim v)] @ fums @ [q]\<rparr>"
    have eq: "handleSubmit bs fmt s v g = Inr (?s', g3)"
      using handleSubmit_advance[OF assms(3) assms(1) assms(2) assms(4) Some, of fmt g] fu qu by simp
    show ?thesis
      apply (rule exI[of _ ?s'], rule exI[of _ g3])
      apply (rule exI[of _ fums], rule exI[of _ "[q]"])
      using eq fums q0 Some q assms(1) mg by simp
  qed
qed

theorem accepted_submit_advances_witness:
  "status sampleAnswered = Collecting \<and>
   at sampleSteps (stepIndex sampleAnswered) = Some (sampleSteps ! 1) \<and>
   trim (lit '' grow '') \<noteq> [] \<and>
   parse (sampleSteps ! 1) (trim (lit '' grow '')) (lead sampleAnswered) =
     Success (noUpdates\<lparr>setPrimaryGoal := Some (Some (lit ''grow''))\<rparr>) None \<and>
   handleSubmit sampleSteps sampleFormat sampleAnswered (lit '' grow '') sampleIds =
     Inr (sampleDone, \<lambda>n. sampleIds (Suc (Suc (Suc (Suc n))))) \<and>
   stepIndex sampleDone = Suc (stepIndex sampleAnswered) \<and>
   primaryGoal (lead sampleDone) = Some (lit ''grow'') \<and>
   companyName (lead sampleDone) = companyName (lead sampleAnswered) \<and>
   status sampleDone = Complete"
proof -
  have c: "status sampleAnswered = Collecting"
    by (simp add: sampleAnswered_def)
  have a: "at sampleSteps (stepIndex sampleAnswered) = Some (sampleSteps ! 1)"
    by (simp add: at_def sampleSteps_def sampleAnswered_def)
  have n: "trim (lit '' grow '') \<noteq> []"
    by (simp add: trim_def lit_def isWhiteSpace_def whiteSpace_def)
  have p: "parse (sampleSteps ! 1) (trim (lit '' grow '')) (lead sampleAnswered) =
             Success (noUpdates\<lparr>setPrimaryGoal := Some (Some (lit ''grow''))\<rparr>) None"
    by (simp add: trim_def lit_def isWhiteSpace_def whiteSpace_def sampleSteps_def)
  have e: "at sampleSteps (Suc (stepIndex sampleAnswered)) = None"
    by (simp add: at_def sampleSteps_def sampleAnswered_def)
  from accepted_submit_advances[OF c a n p, of sampleFormat sampleIds]
  obtain s' g' where r:
    "handleSubmit sampleSteps sampleFormat sampleAnswered (lit '' grow '') sampleIds = Inr (s', g')"
    "stepIndex s' = Suc (stepIndex sampleAnswered)"
    "mergedRecord (lead sampleAnswered) (noUpdates\<lparr>setPrimaryGoal := Some (Some (lit ''grow''))\<rparr>) (lead s')"
    "case at sampleSteps (Suc (stepIndex sampleAnswered)) of
       None \<Rightarrow> status s' = Complete
     | Some nx \<Rightarrow> status s' = Collecting"
    by (auto split: option.splits)
  from r(1) have s': "s' = sampleDone"
    by (simp add: submit_sampleAnswered)
  from r(3) have g: "primaryGoal (lead s') = Some (lit ''grow'') \<and>
                     companyName (lead s') = companyName (lead sampleAnswered)"
    by (simp add: mergedRecord_def noUpdates_def)
  from r(4) e have st: "status s' = Complete"
    by simp
  show ?thesis
    using c a n p r(1) r(2) g st submit_sampleAnswered unfolding s' by simp
qed

subsection \<open>C5: reset\<close>

text \<open>
  Claim C5. From every state, reached or not, a reset gives what the initializer gives on
  the same supply of identifiers; with at least one step this is the state with cursor 0,
  the empty record, status collecting and a log of exactly two messages, the greeting and
  the question of the first step, shown verbatim. The two results can differ only in the
  identifier drawn for the question.
\<close>

theorem reset_is_init:
  "resetConversation bs s g = init bs g \<and>
   resetConversation (st # rest) s g =
     Inr (\<lparr>stepIndex = 0, lead = emptyLead,
           messages = [initialAgentMessage,
             \<lparr>msgId = g 0, sender = Agent, content = question st,
               msgSuggestions = suggestions st, meta = Some (Some Question)\<rparr>],
           status = Collecting\<rparr>, \<lambda>n. g (Suc n))"
  by (simp add: resetConversation_def init_def at_def questionForStep_def generateId_def)

theorem reset_is_init_witness:
  "resetConversation sampleSteps
     (sampleStart\<lparr>stepIndex := 2, status := Complete, lead := emptyLead\<lparr>companyName := Some (lit ''Acme'')\<rparr>\<rparr>)
     sampleIds = Inr (sampleStart, \<lambda>n. sampleIds (Suc n))"
  using reset_is_init [of sampleSteps
      "sampleStart\<lparr>stepIndex := 2, status := Complete, lead := emptyLead\<lparr>companyName := Some (lit ''Acme'')\<rparr>\<rparr>"
      sampleIds] init_sample
  by simp

subsection \<open>C6: a submission after completion\<close>

text \<open>
  Claim C6. In a complete state, a submission that is not empty (once trimmed, the test of
  the handler) appends exactly the user's message and the fixed acknowledgement, an info
  message; the record, the cursor and the status are those of the state before, so the
  insights, a function of the record, are the same.
\<close>

theorem submit_while_complete:
  assumes "status s = Complete" and "trim v \<noteq> []"
  shows "handleSubmit bs fmt s v g =
    Inr (s\<lparr>messages := messages s @
          [userMsg (g 0) (trim v), agentMsg (g 1) acknowledgement (Some (Some Info))]\<rparr>,
         \<lambda>n. g (Suc (Suc n)))"
  by (rule handleSubmit_complete[OF assms(2) assms(1)])

theorem submit_while_complete_witness:
  "status (sampleStart\<lparr>stepIndex := 2, status := Complete\<rparr>) = Complete \<and>
   trim (lit '' one more thing '') \<noteq> [] \<and>
   handleSubmit sampleSteps sampleFormat (sampleStart\<lparr>stepIndex := 2, status := Complete\<rparr>)
       (lit '' one more thing '') sampleIds =
     Inr (sampleStart\<lparr>stepIndex := 2, status := Complete,
            messages := messages sampleStart @
              [userMsg [0] (lit ''one more thing''),
               agentMsg [1] acknowledgement (Some (Some Info))]\<rparr>,
          \<lambda>n. sampleIds (Suc (Suc n)))"
proof -
  have t: "trim (lit '' one more thing '') = lit ''one more thing''"
    by (simp add: trim_def lit_def isWhiteSpace_def whiteSpace_def)
  have n: "trim (lit '' one more thing '') \<noteq> []"
    by (simp add: t) (simp add: lit_def)
  have c: "status (sampleStart\<lparr>stepIndex := 2, status := Complete\<rparr>) = Complete"
    by simp
  show ?thesis
    using submit_while_complete [OF c n, of sampleSteps sampleFormat sampleIds] c n
    by (simp add: t sampleIds_def)
qed

subsection \<open>C7: the summary\<close>

text \<open>
  Claim C7 says that a field absent from the record is left out of the summary and never
  shown by a placeholder. With a company name and a contact name but no industry and no
  email, the summary shows the placeholders \<^verbatim>\<open>unknown vertical\<close> and
  \<^verbatim>\<open>email pending\<close>.
\<close>

theorem summary_placeholder_counterexample:
  "industry (emptyLead\<lparr>companyName := Some (lit ''Acme''), contactName := Some (lit ''Ada'')\<rparr>) = None \<and>
   contactEmail (emptyLead\<lparr>companyName := Some (lit ''Acme''), contactName := Some (lit ''Ada'')\<rparr>) = None \<and>
   renderSummary sampleFormat
     (emptyLead\<lparr>companyName := Some (lit ''Acme''), contactName := Some (lit ''Ada'')\<rparr>) =
   lit ''Quick recap:'' @ [0x000A] @ [0x2022] @ lit '' Acme in unknown vertical'' @ [0x000A] @
   [0x2022] @ lit '' Contact: Ada (email pending)''"
  by (simp add: renderSummary_def emptyLead_def whenTruthy_def bullet_def lit_def)

text \<open>
  Claim C7, amended. The summary is the line \<^verbatim>\<open>Quick recap:\<close> followed by the lines of
  \<open>summaryLines\<close>, one per line: in the order company, goal, pain points, budget, timeline,
  contact, one line with its fixed label for each of company name, goal, pain points,
  timeline and contact name that is present and not empty, and a budget line when the
  range label is present and not empty or else the numeric value is present and not zero.
  A line whose field is absent is left out. Inside the company line an absent industry
  reads \<^verbatim>\<open>unknown vertical\<close>, and inside the contact line an absent email reads
  \<^verbatim>\<open>email pending\<close>.
\<close>

theorem summary_lines:
  "renderSummary fmt l = lit ''Quick recap:'' @ [0x000A] @ join [0x000A] (summaryLines fmt l) \<and>
   length (summaryLines fmt l) =
     length (filter id
       [truthy (companyName l), truthy (primaryGoal l), truthy (painPoints l),
        truthy (budgetRange l) \<or> truthyNum (budgetValue l), truthy (timeline l),
        truthy (contactName l)])"
proof
  have "filterBoolean
        [whenTruthy (companyName l)
           (\<lambda>n. bullet @ n @ lit '' in '' @ nullish (industry l) (lit ''unknown vertical'')),
         whenTruthy (primaryGoal l) (\<lambda>x. bullet @ lit ''Goal: '' @ x),
         whenTruthy (painPoints l) (\<lambda>x. bullet @ lit ''Challenge: '' @ x),
         (if truthy (budgetRange l)
          then whenTruthy (budgetRange l) (\<lambda>x. bullet @ lit ''Budget comfort zone: '' @ x)
          else (case budgetValue l of
                  None \<Rightarrow> None
                | Some v \<Rightarrow>
                    if v \<noteq> 0
                    then Some (bullet @ lit ''Budget comfort zone: ~$'' @ fmt v)
                    else None)),
         whenTruthy (timeline l) (\<lambda>x. bullet @ lit ''Timeline: '' @ x),
         whenTruthy (contactName l)
           (\<lambda>n. bullet @ lit ''Contact: '' @ n @ lit '' ('' @
                 nullish (contactEmail l) (lit ''email pending'') @ lit '')'')]
     = summaryLines fmt l"
    unfolding summaryLines_def filterBoolean_Cons filterBoolean_whenTruthy filterBoolean.simps(1)
    by (cases "budgetRange l"; cases "budgetValue l")
       (simp_all add: lineIf_def bullet_ne nullish_eq whenTruthy_def lit_def)
  then show "renderSummary fmt l = lit ''Quick recap:'' @ [0x000A] @ join [0x000A] (summaryLines fmt l)"
    by (simp add: renderSummary_def)
  show "length (summaryLines fmt l) =
     length (filter id
       [truthy (companyName l), truthy (primaryGoal l), truthy (painPoints l),
        truthy (budgetRange l) \<or> truthyNum (budgetValue l), truthy (timeline l),
        truthy (contactName l)])"
    by (simp add: summaryLines_def lineIf_def)
qed

theorem summary_lines_witness:
  "renderSummary sampleFormat
     (emptyLead\<lparr>primaryGoal := Some (lit ''Grow''), industry := Some (lit ''Retail''),
        budgetValue := Some 1000, timeline := Some []\<rparr>) =
   lit ''Quick recap:'' @ [0x000A] @ [0x2022] @ lit '' Goal: Grow'' @ [0x000A] @
   [0x2022] @ lit '' Budget comfort zone: ~$1,000''"
  using summary_lines [of sampleFormat
      "emptyLead\<lparr>primaryGoal := Some (lit ''Grow''), industry := Some (lit ''Retail''),
        budgetValue := Some 1000, timeline := Some []\<rparr>"]
  by (simp add: summaryLines_def lineIf_def emptyLead_def bullet_def sampleFormat_def lit_def)

subsection \<open>C8: a cursor beyond the steps\<close>

text \<open>
  Claim C8. The states of the engine are those it reaches from its initial state by
  submissions and resets. In every such state whose cursor is beyond the steps the
  conversation is complete, and a submission that is not blank is answered as in a
  complete conversation, without an error: the user's message and the fixed
  acknowledgement are logged, and the cursor, the record and the status stay.
\<close>

theorem beyond_steps_completes:
  assumes "reachable bs fmt s" and "at bs (stepIndex s) = None" and "trim v \<noteq> []"
  shows "status s = Complete \<and>
         handleSubmit bs fmt s v g =
           Inr (s\<lparr>messages := messages s @
                  [userMsg (g 0) (trim v), agentMsg (g 1) acknowledgement (Some (Some Info))]\<rparr>,
                \<lambda>n. g (Suc (Suc n)))"
proof -
  from assms(2) have "length bs \<le> stepIndex s"
    by (simp add: at_def split: if_splits)
  with reachable_complete_iff[OF assms(1)] have c: "status s = Complete"
    by simp
  from c handleSubmit_complete[OF assms(3) c, of bs fmt g] show ?thesis
    by simp
qed

theorem beyond_steps_completes_witness:
  "reachable sampleSteps sampleFormat sampleDone \<and>
   at sampleSteps (stepIndex sampleDone) = None \<and>
   trim (lit ''Acme'') \<noteq> [] \<and>
   status sampleDone = Complete \<and>
   handleSubmit sampleSteps sampleFormat sampleDone (lit ''Acme'') sampleIds =
     Inr (sampleDone\<lparr>messages := messages sampleDone @
            [userMsg [0] (lit ''Acme''), agentMsg [1] acknowledgement (Some (Some Info))]\<rparr>,
          \<lambda>n. sampleIds (Suc (Suc n)))"
proof -
  have a: "at sampleSteps (stepIndex sampleDone) = None"
    by (simp add: at_def sampleSteps_def sampleDone_def)
  have n: "trim (lit ''Acme'') \<noteq> []"
    by (simp add: trim_def lit_def isWhiteSpace_def whiteSpace_def)
  show ?thesis
    using beyond_steps_completes [OF reachable_sampleDone a n, of sampleIds]
      reachable_sampleDone a n
    by (simp add: trim_Acme sampleIds_def)
qed

subsection \<open>C9: the log only grows\<close>

text \<open>
  Claim C9. Every submission, in every state and whatever the handler does with it
  (ignoring it, acknowledging it after completion, retrying, advancing, completing),
  returns a state whose log has the log of the state before as a prefix: no message is
  changed or removed. The same holds of every action of the reducer but INIT and RESET,
  which build a new log.
\<close>

theorem log_append_only:
  "(\<exists>s' g'. handleSubmit bs fmt s v g = Inr (s', g') \<and> prefix (messages s) (messages s')) \<and>
   (a \<noteq> INIT \<and> a \<noteq> RESET \<and> reducer bs s a g = Inr (s2, g2) \<longrightarrow>
      prefix (messages s) (messages s2))"
  using handleSubmit_prefix [of bs fmt s v g] reducer_prefix [of a bs s g s2 g2] by blast

theorem log_append_only_witness:
  "(\<exists>s' g'. handleSubmit sampleSteps sampleFormat sampleStart (lit ''Acme'') sampleIds = Inr (s', g') \<and>
      prefix (messages sampleStart) (messages s')) \<and>
   reducer sampleSteps sampleStart (RETRY (lit ''Again?'')) sampleIds =
     Inr (sampleStart\<lparr>messages := messages sampleStart @
            [agentMsg [0] (lit ''Again?'') (Some (Some Info)),
             \<lparr>msgId = [1], sender = Agent, content = lit ''Which company?'',
               msgSuggestions = Some [lit ''Acme''], meta = Some (Some Question)\<rparr>]\<rparr>,
          \<lambda>n. sampleIds (Suc (Suc n))) \<and>
   prefix (messages sampleStart)
     (messages (sampleStart\<lparr>messages := messages sampleStart @
            [agentMsg [0] (lit ''Again?'') (Some (Some Info)),
             \<lparr>msgId = [1], sender = Agent, content = lit ''Which company?'',
               msgSuggestions = Some [lit ''Acme''], meta = Some (Some Question)\<rparr>]\<rparr>))"
proof -
  have r: "reducer sampleSteps sampleStart (RETRY (lit ''Again?'')) sampleIds =
     Inr (sampleStart\<lparr>messages := messages sampleStart @
            [agentMsg [0] (lit ''Again?'') (Some (Some Info)),
             \<lparr>msgId = [1], sender = Agent, content = lit ''Which company?'',
               msgSuggestions = Some [lit ''Acme''], meta = Some (Some Question)\<rparr>]\<rparr>,
          \<lambda>n. sampleIds (Suc (Suc n)))"
    by (simp add: agentMessage_def questionForStep_def generateId_def at_def sampleSteps_def
        sampleStart_def sampleIds_def)
  from log_append_only [of sampleSteps sampleFormat sampleStart "lit ''Acme''" sampleIds
      "RETRY (lit ''Again?'')" _ "\<lambda>n. sampleIds (Suc (Suc n))"] r
  show ?thesis by simp
qed

end
